theory Spec2Isabelle
  imports Complex_Main
begin

unbundle bit_operations_syntax

section \<open>JavaScript values and errors\<close>

text \<open>
  The library is dynamically typed: \<open>mask\<close> and \<open>compare\<close> test \<open>typeof\<close> of their
  arguments, so an argument is a tagged value. A string is the list of its code units,
  taken here from the 8-bit characters of \<open>string\<close>; a number is an integer. Every
  exception of the source is a value of \<open>error\<close>, and a function that can raise returns
  \<open>error + 'a\<close> with \<open>Inl\<close> for the exception.
\<close>

datatype error = TypeError | RangeError | ReferenceError | SyntaxError

datatype jsval =
    JString string
  | JNumber int
  | JBoolean bool
  | JNull
  | JUndefined
  | JObject

section \<open>Numbers: the products of \<open>mask\<close> in IEEE-754 double precision\<close>

text \<open>
  \<open>mask\<close> multiplies the integer \<open>strLength - visibleStart - visibleEnd\<close> by one of the
  Number literals \<open>0.3\<close>, \<open>0.7\<close>, \<open>1\<close> and rounds the product with \<open>Math.round\<close>.
  A Number is a double. The non-negative doubles that occur are written as natural
  numbers counting units of \<open>2^-54\<close>: the nat \<open>x\<close> stands for \<open>x / 2^54\<close>.

  \<^item> \<open>double_0_3\<close> is the literal \<open>0.3\<close> = 0x3FD3333333333333 = 5404319552844595 / 2^54;
  \<^item> \<open>double_0_7\<close> is the literal \<open>0.7\<close> = 0x3FE6666666666666 = 6305039478318694 / 2^53;
  \<^item> \<open>double_1\<close> is \<open>1\<close>.

  \<open>round_to_double\<close> is the rounding of an exact product to the nearest double, ties to
  even: a double keeps 53 significant bits, so a value of \<open>bit_length p\<close> bits loses its
  lowest \<open>bit_length p - 53\<close> bits (none when it has at most 53 bits; the subtraction on
  \<open>nat\<close> stops at 0). \<open>Math_round\<close> is \<open>Math.round\<close> on such a value: the integer
  \<open>floor (x + 1/2)\<close>, computed exactly. The integer factor is itself a double as long
  as it is below \<open>2^53\<close>, which the length of a string is.
\<close>

fun bit_length :: "nat \<Rightarrow> nat" where
  "bit_length n = (if n = 0 then 0 else Suc (bit_length (n div 2)))"

declare bit_length.simps [simp del]

definition round_to_double :: "nat \<Rightarrow> nat" where
  "round_to_double p =
     (let s = bit_length p - 53; q = p div 2 ^ s; r = p mod 2 ^ s
      in if 2 ^ s < 2 * r \<or> (2 * r = 2 ^ s \<and> odd q) then (q + 1) * 2 ^ s else q * 2 ^ s)"

definition double_0_3 :: nat where
  "double_0_3 = 5404319552844595"

definition double_0_7 :: nat where
  "double_0_7 = 2 * 6305039478318694"

definition double_1 :: nat where
  "double_1 = 2 ^ 54"

definition double_mul :: "nat \<Rightarrow> nat \<Rightarrow> nat" where
  "double_mul h r = round_to_double (h * r)"

definition Math_round :: "nat \<Rightarrow> nat" where
  "Math_round x = (x + 2 ^ 53) div 2 ^ 54"

section \<open>\<open>src/mask.js\<close>\<close>

text \<open>
  The options object. A field that is absent (\<open>undefined\<close>) is \<open>None\<close> and takes the
  default of the destructuring pattern. \<open>visibleStart\<close> and \<open>visibleEnd\<close> are integers
  (the command line passes \<open>parseInt\<close> results, which may be negative). \<open>maskChar\<close> is a
  string, a function from the requested length to a string, or any other value; the
  length handed to a function is \<open>None\<close> when it is \<open>NaN\<close>.
\<close>

datatype mask_char =
    Literal string
  | Generator "nat option \<Rightarrow> string"
  | Other

record options =
  visibleStart :: "int option"
  visibleEnd :: "int option"
  maskChar :: "mask_char option"
  sensitivity :: "string option"

definition no_options :: options where
  "no_options = \<lparr>visibleStart = None, visibleEnd = None, maskChar = None, sensitivity = None\<rparr>"

definition default :: "'a \<Rightarrow> 'a option \<Rightarrow> 'a" where
  "default d v = (case v of None \<Rightarrow> d | Some x \<Rightarrow> x)"

text \<open>
  \<open>String.prototype.substring(start, end)\<close>: both arguments are clamped to
  \<open>[0, length]\<close> and swapped when \<open>start > end\<close>. With one argument \<open>end\<close> is the length.
\<close>

definition substring :: "string \<Rightarrow> int \<Rightarrow> int \<Rightarrow> string" where
  "substring s start end =
     (let len = int (length s);
          a = min (max start 0) len;
          b = min (max end 0) len;
          from = min a b;
          to = max a b
      in take (nat (to - from)) (drop (nat from) s))"

definition substring_from :: "string \<Rightarrow> int \<Rightarrow> string" where
  "substring_from s start = substring s start (int (length s))"

text \<open>
  \<open>String.prototype.repeat(count)\<close>; a count of \<open>NaN\<close> is taken as 0. An engine raises a
  RangeError where the result would pass its limit on the length of a string; the model
  has no such limit and stands for the code where the result is no longer than a string
  at hand.
\<close>

definition repeat :: "string \<Rightarrow> nat option \<Rightarrow> string" where
  "repeat s count = (case count of None \<Rightarrow> [] | Some n \<Rightarrow> concat (replicate n s))"

text \<open>
  The object literal \<open>sensitivityLevels\<close> and the lookup \<open>sensitivityLevels[sensitivity]\<close>.
  The lookup follows the prototype chain: a key that names a member of
  \<open>Object.prototype\<close> yields that member, a function or an object, which is truthy
  and is \<open>NaN\<close> as a number.
\<close>

datatype property = Number nat | Inherited

definition Object_prototype :: "string list" where
  "Object_prototype =
     [''constructor'', ''__defineGetter__'', ''__defineSetter__'', ''hasOwnProperty'',
      ''__lookupGetter__'', ''__lookupSetter__'', ''isPrototypeOf'',
      ''propertyIsEnumerable'', ''toString'', ''valueOf'', ''__proto__'',
      ''toLocaleString'']"

definition sensitivityLevels :: "string \<Rightarrow> property option" where
  "sensitivityLevels key =
     (if key = ''low'' then Some (Number double_0_3)
      else if key = ''medium'' then Some (Number double_0_7)
      else if key = ''high'' then Some (Number double_1)
      else if key \<in> set Object_prototype then Some Inherited
      else None)"

text \<open>
  \<open>Math.round((strLength - visibleStart - visibleEnd) * maskRatio)\<close>; \<open>None\<close> is \<open>NaN\<close>.
  The first factor is positive where \<open>mask\<close> computes this. It is taken as the exact
  integer, which it is in the code below \<open>2^53\<close>: with \<open>visibleStart\<close> and \<open>visibleEnd\<close>
  non-negative it is at most the length of the string.
\<close>

definition maskedPartLength :: "int \<Rightarrow> property \<Rightarrow> nat option" where
  "maskedPartLength hidden maskRatio =
     (case maskRatio of
        Number r \<Rightarrow> Some (Math_round (double_mul (nat hidden) r))
      | Inherited \<Rightarrow> None)"

definition mask_js :: "jsval \<Rightarrow> options \<Rightarrow> error + string" where
  "mask_js str opts =
     (case str of
        JString s \<Rightarrow>
          (let vs = default 2 (visibleStart opts);
               ve = default 2 (visibleEnd opts);
               mc = default (Literal ''*'') (maskChar opts);
               sens = default ''medium'' (sensitivity opts);
               strLength = int (length s)
           in if vs + ve \<ge> strLength then Inr s
              else
                (let maskRatio =
                       (case sensitivityLevels sens of
                          Some v \<Rightarrow> v
                        | None \<Rightarrow> Number double_0_7);
                     len = maskedPartLength (strLength - vs - ve) maskRatio
                 in case mc of
                      Generator g \<Rightarrow>
                        Inr (substring s 0 vs @ g len @ substring_from s (strLength - ve))
                    | Literal m \<Rightarrow>
                        Inr (substring s 0 vs @ repeat m len @ substring_from s (strLength - ve))
                    | Other \<Rightarrow> Inl TypeError))
      | _ \<Rightarrow> Inr [])"

section \<open>\<open>index.js\<close>: \<open>stringUtils.mask\<close>\<close>

text \<open>The root \<open>index.js\<close> carries its own copy of the function, statement for statement.\<close>

definition stringUtils_mask :: "jsval \<Rightarrow> options \<Rightarrow> error + string" where
  "stringUtils_mask str opts =
     (case str of
        JString s \<Rightarrow>
          (let vs = default 2 (visibleStart opts);
               ve = default 2 (visibleEnd opts);
               mc = default (Literal ''*'') (maskChar opts);
               sens = default ''medium'' (sensitivity opts);
               strLength = int (length s)
           in if vs + ve \<ge> strLength then Inr s
              else
                (let maskRatio =
                       (case sensitivityLevels sens of
                          Some v \<Rightarrow> v
                        | None \<Rightarrow> Number double_0_7);
                     len = maskedPartLength (strLength - vs - ve) maskRatio
                 in case mc of
                      Generator g \<Rightarrow>
                        Inr (substring s 0 vs @ g len @ substring_from s (strLength - ve))
                    | Literal m \<Rightarrow>
                        Inr (substring s 0 vs @ repeat m len @ substring_from s (strLength - ve))
                    | Other \<Rightarrow> Inl TypeError))
      | _ \<Rightarrow> Inr [])"

section \<open>\<open>src/compare.js\<close>\<close>

text \<open>
  \<open>charCodeAt\<close> yields the code unit, or \<open>NaN\<close> (\<open>None\<close>) past the end. The operands of
  \<open>^\<close> and \<open>|=\<close> are converted with \<open>ToInt32\<close>, which takes \<open>NaN\<close> to 0 and wraps an
  integer to 32 bits, two's complement.
\<close>

definition charCodeAt :: "string \<Rightarrow> nat \<Rightarrow> int option" where
  "charCodeAt s i = (if i < length s then Some (of_char (s ! i)) else None)"

definition ToInt32 :: "int option \<Rightarrow> int" where
  "ToInt32 v = (case v of None \<Rightarrow> 0 | Some x \<Rightarrow> signed_take_bit 31 x)"

definition compare_loop :: "string \<Rightarrow> string \<Rightarrow> int" where
  "compare_loop str1 str2 =
     fold (\<lambda>i result. ToInt32 (Some result) OR (ToInt32 (charCodeAt str1 i) XOR ToInt32 (charCodeAt str2 i)))
       [0..<length str1] 0"

definition compare :: "jsval \<Rightarrow> jsval \<Rightarrow> bool" where
  "compare str1 str2 =
     (case str1 of
        JString s1 \<Rightarrow>
          (case str2 of
             JString s2 \<Rightarrow>
               (if length s1 \<noteq> length s2 then False else compare_loop s1 s2 = 0)
           | _ \<Rightarrow> False)
      | _ \<Rightarrow> False)"

section \<open>\<open>src/bloomFilter.js\<close>\<close>

text \<open>
  \<open>bitArray\<close> is a JavaScript array, that is an object whose properties are looked up
  by key: a map. The key is the value of \<open>_hash\<close>, an index or \<open>NaN\<close> (\<open>None\<close>, when
  \<open>size\<close> is 0 and \<open>%\<close> divides by zero); reading a key that was never written gives
  \<open>undefined\<close> (\<open>None\<close>), which is not \<open>=== 0\<close>. The seeds in \<open>hashFunctions\<close> are
  integers. \<open>new Array(size)\<close> raises a RangeError from \<open>2^32\<close> on.
\<close>

record BloomFilter =
  size_bf :: nat
  bitArray :: "nat option \<rightharpoonup> nat"
  hashFunctions :: "int list"

definition new_BloomFilter :: "nat option \<Rightarrow> int list option \<Rightarrow> error + BloomFilter" where
  "new_BloomFilter size_arg hashFunctions_arg =
     (let sz = default 100 size_arg;
          hf = default [] hashFunctions_arg
      in if 2 ^ 32 \<le> sz then Inl RangeError
         else Inr \<lparr>size_bf = sz,
                   bitArray = (\<lambda>key. case key of
                                        Some i \<Rightarrow> if i < sz then Some 0 else None
                                      | None \<Rightarrow> None),
                   hashFunctions = hf\<rparr>)"

text \<open>
  \<open>hash = (hash << 5) - hash + str.charCodeAt(i); hash |= 0\<close>: the shift works on
  \<open>ToInt32 hash\<close> and yields a 32-bit integer, the subtraction and the addition are
  exact, and \<open>|= 0\<close> wraps the sum to 32 bits. The first round works on the seed itself:
  the model stands for the code for seeds below \<open>2^53\<close> in magnitude, where the
  subtraction is exact in double precision.
\<close>

fun hash_loop :: "int \<Rightarrow> string \<Rightarrow> int" where
  "hash_loop hash [] = hash"
| "hash_loop hash (c # cs) =
     hash_loop (ToInt32 (Some (ToInt32 (Some (push_bit 5 (ToInt32 (Some hash)))) - hash + of_char c))) cs"

definition BloomFilter_hash :: "BloomFilter \<Rightarrow> string \<Rightarrow> int \<Rightarrow> nat option" where
  "BloomFilter_hash this str seed =
     (if size_bf this = 0 then None
      else Some (nat \<bar>hash_loop seed str\<bar> mod size_bf this))"

fun add_loop :: "BloomFilter \<Rightarrow> string \<Rightarrow> int list \<Rightarrow> BloomFilter" where
  "add_loop this str [] = this"
| "add_loop this str (hashFunction # rest) =
     (let index = BloomFilter_hash this str hashFunction
      in add_loop (this\<lparr>bitArray := (bitArray this)(index \<mapsto> 1)\<rparr>) str rest)"

definition BloomFilter_add :: "BloomFilter \<Rightarrow> string \<Rightarrow> BloomFilter" where
  "BloomFilter_add this str = add_loop this str (hashFunctions this)"

fun check_loop :: "BloomFilter \<Rightarrow> string \<Rightarrow> int list \<Rightarrow> bool" where
  "check_loop this str [] = True"
| "check_loop this str (hashFunction # rest) =
     (let index = BloomFilter_hash this str hashFunction
      in if bitArray this index = Some 0 then False else check_loop this str rest)"

definition BloomFilter_check :: "BloomFilter \<Rightarrow> string \<Rightarrow> bool" where
  "BloomFilter_check this str = check_loop this str (hashFunctions this)"

section \<open>Regular expressions: \<open>new RegExp(key, 'g')\<close> and \<open>String.prototype.replace\<close>\<close>

text \<open>
  \<open>redactFile\<close> hands every rule key to the host's \<open>RegExp\<close> constructor and replaces
  with the host's \<open>replace\<close>. Both are modelled after ECMA-262 (with its Annex B, no
  \<open>u\<close> flag) for the patterns that are sequences of quantified one-character atoms: a
  literal character, \<open>.\<close>, the escapes \<open>\d\<close> and \<open>\w\<close>, an escaped punctuation
  character, a character class with ranges, each with an optional greedy quantifier
  \<open>*\<close>, \<open>+\<close>, \<open>?\<close>, \<open>{n}\<close>, \<open>{n,}\<close>, \<open>{n,m}\<close>.

  A pattern has one of three outcomes: \<open>Ok\<close> with the compiled expression; \<open>Invalid\<close>,
  where the constructor throws a SyntaxError (an unterminated class, a range or a
  quantifier out of order, a quantifier with nothing to repeat, a lone backslash at the
  end); \<open>Unmodelled\<close>, where the pattern uses a construct outside this fragment (groups,
  alternation, anchors, lazy quantifiers, other escapes, a literal brace), about which
  the model says nothing.
\<close>

datatype 'a parse = Ok 'a | Invalid | Unmodelled

type_synonym ranges = "(nat \<times> nat) list"

datatype atom = Char char | Any | Class bool ranges

type_synonym quantified = "atom \<times> nat \<times> nat option"

type_synonym regex = "quantified list"

definition digit :: ranges where
  "digit = [(48, 57)]"

definition word :: ranges where
  "word = [(48, 57), (65, 90), (95, 95), (97, 122)]"

definition in_ranges :: "ranges \<Rightarrow> nat \<Rightarrow> bool" where
  "in_ranges rs n = list_ex (\<lambda>(lo, hi). lo \<le> n \<and> n \<le> hi) rs"

text \<open>The character after a backslash: a class, one character, or not modelled.\<close>

definition escape :: "char \<Rightarrow> ranges option" where
  "escape c =
     (if c = CHR ''d'' then Some digit
      else if c = CHR ''w'' then Some word
      else if in_ranges word (of_char c) \<and> c \<noteq> CHR ''_'' then None
      else Some [(of_char c, of_char c)])"

text \<open>
  The body of a character class, after \<open>[\<close> or \<open>[^\<close>, is first cut into class atoms up
  to the closing \<open>]\<close>. \<open>Single n e\<close> is one character with code \<open>n\<close>, written with a
  backslash when \<open>e\<close> holds; \<open>Set\<close> is \<open>\d\<close> or \<open>\w\<close>.
\<close>

datatype class_atom = Single nat bool | Set ranges

fun class_atoms :: "string \<Rightarrow> (class_atom list \<times> string) parse" where
  "class_atoms [] = Invalid"
| "class_atoms [c] = (if c = CHR '']'' then Ok ([], []) else Invalid)"
| "class_atoms (c # e # cs) =
     (if c = CHR '']'' then Ok ([], e # cs)
      else if c = CHR 0x5C then
        (case escape e of
           None \<Rightarrow> Unmodelled
         | Some rs \<Rightarrow>
             (case class_atoms cs of
                Ok (as, rest) \<Rightarrow>
                  Ok ((if e = CHR ''d'' \<or> e = CHR ''w'' then Set rs else Single (of_char e) True) # as,
                      rest)
              | Invalid \<Rightarrow> Invalid
              | Unmodelled \<Rightarrow> Unmodelled))
      else
        (case class_atoms (e # cs) of
           Ok (as, rest) \<Rightarrow> Ok (Single (of_char c) False # as, rest)
         | Invalid \<Rightarrow> Invalid
         | Unmodelled \<Rightarrow> Unmodelled))"

definition atom_ranges :: "class_atom \<Rightarrow> ranges" where
  "atom_ranges a = (case a of Single n e \<Rightarrow> [(n, n)] | Set rs \<Rightarrow> rs)"

text \<open>
  \<open>a-b\<close> between two single characters is a range, a SyntaxError when out of order;
  when \<open>a\<close> or \<open>b\<close> is a set the three atoms are taken separately (Annex B).
\<close>

fun class_ranges :: "class_atom list \<Rightarrow> ranges parse" where
  "class_ranges (a # Single d e # b # rest) =
     (if d = 45 \<and> \<not> e then
        (case (a, b) of
           (Single lo _, Single hi _) \<Rightarrow>
             (if hi < lo then Invalid
              else (case class_ranges rest of Ok rs \<Rightarrow> Ok ((lo, hi) # rs) | Invalid \<Rightarrow> Invalid
                    | Unmodelled \<Rightarrow> Unmodelled))
         | _ \<Rightarrow>
             (case class_ranges rest of
                Ok rs \<Rightarrow> Ok (atom_ranges a @ [(45, 45)] @ atom_ranges b @ rs)
              | Invalid \<Rightarrow> Invalid
              | Unmodelled \<Rightarrow> Unmodelled))
      else
        (case class_ranges (Single d e # b # rest) of
           Ok rs \<Rightarrow> Ok (atom_ranges a @ rs)
         | Invalid \<Rightarrow> Invalid
         | Unmodelled \<Rightarrow> Unmodelled))"
| "class_ranges (a # rest) =
     (case class_ranges rest of
        Ok rs \<Rightarrow> Ok (atom_ranges a @ rs)
      | Invalid \<Rightarrow> Invalid
      | Unmodelled \<Rightarrow> Unmodelled)"
| "class_ranges [] = Ok []"

definition parse_class :: "string \<Rightarrow> (atom \<times> string) parse" where
  "parse_class s =
     (let negated = (case s of c # _ \<Rightarrow> c = CHR ''^'' | [] \<Rightarrow> False);
          body = (if negated then tl s else s)
      in case class_atoms body of
           Ok (as, rest) \<Rightarrow>
             (case class_ranges as of
                Ok rs \<Rightarrow> Ok (Class negated rs, rest)
              | Invalid \<Rightarrow> Invalid
              | Unmodelled \<Rightarrow> Unmodelled)
         | Invalid \<Rightarrow> Invalid
         | Unmodelled \<Rightarrow> Unmodelled)"

text \<open>Decimal digits at the head of a string, as a number, and what follows them.\<close>

fun digits :: "string \<Rightarrow> nat option \<Rightarrow> nat option \<times> string" where
  "digits [] acc = (acc, [])"
| "digits (c # cs) acc =
     (if in_ranges digit (of_char c)
      then digits cs (Some (10 * default 0 acc + (of_char c - 48)))
      else (acc, c # cs))"

text \<open>
  A braced quantifier, after its \<open>{\<close>: \<open>Ok\<close> with the bounds and the rest, \<open>Invalid\<close> when
  the bounds are out of order, \<open>Unmodelled\<close> when the text is no quantifier or a bound
  has more than 31 bits (is \<open>2^31\<close> or more), where engines clamp the number.
\<close>

definition braces :: "string \<Rightarrow> ((nat \<times> nat option) \<times> string) parse" where
  "braces s =
     (case digits s None of
        (None, _) \<Rightarrow> Unmodelled
      | (Some n, rest) \<Rightarrow>
          (case rest of
             [] \<Rightarrow> Unmodelled
           | c # cs \<Rightarrow>
               if 31 < bit_length n then Unmodelled
               else if c = CHR ''}'' then Ok ((n, Some n), cs)
               else if c = CHR '','' then
                 (case digits cs None of
                    (None, rest') \<Rightarrow>
                      (case rest' of
                         [] \<Rightarrow> Unmodelled
                       | d # ds \<Rightarrow> if d = CHR ''}'' then Ok ((n, None), ds) else Unmodelled)
                  | (Some m, rest') \<Rightarrow>
                      (case rest' of
                         [] \<Rightarrow> Unmodelled
                       | d # ds \<Rightarrow>
                           if 31 < bit_length m then Unmodelled
                           else if d = CHR ''}'' then
                             (if m < n then Invalid else Ok ((n, Some m), ds))
                           else Unmodelled))
               else Unmodelled))"

text \<open>The quantifier that follows an atom, if any; a \<open>?\<close> after it makes it lazy.\<close>

definition quantifier :: "string \<Rightarrow> ((nat \<times> nat option) \<times> string) parse" where
  "quantifier s =
     (let q = (case s of
                 [] \<Rightarrow> Ok ((1, Some 1), [])
               | c # cs \<Rightarrow>
                   if c = CHR ''*'' then Ok ((0, None), cs)
                   else if c = CHR ''+'' then Ok ((1, None), cs)
                   else if c = CHR ''?'' then Ok ((0, Some 1), cs)
                   else if c = CHR ''{'' then
                     (case braces cs of
                        Ok r \<Rightarrow> Ok r
                      | Invalid \<Rightarrow> Invalid
                      | Unmodelled \<Rightarrow> Ok ((1, Some 1), c # cs))
                   else Ok ((1, Some 1), c # cs))
      in case q of
           Ok (b, rest) \<Rightarrow>
             (if length rest < length s \<and> rest \<noteq> [] \<and> hd rest = CHR ''?'' then Unmodelled
              else Ok (b, rest))
         | Invalid \<Rightarrow> Invalid
         | Unmodelled \<Rightarrow> Unmodelled)"

definition parse_atom :: "char \<Rightarrow> string \<Rightarrow> (atom \<times> string) parse" where
  "parse_atom c cs =
     (if c = CHR 0x5C then
        (case cs of
           [] \<Rightarrow> Invalid
         | e # rest \<Rightarrow>
             (case escape e of
                None \<Rightarrow> Unmodelled
              | Some rs \<Rightarrow>
                  Ok (if e = CHR ''d'' \<or> e = CHR ''w'' then Class False rs else Char e, rest)))
      else if c = CHR ''['' then parse_class cs
      else if c = CHR ''.'' then Ok (Any, cs)
      else if c = CHR ''*'' \<or> c = CHR ''+'' \<or> c = CHR ''?'' then Invalid
      else if c = CHR ''{'' then
        (case braces cs of Ok _ \<Rightarrow> Invalid | Invalid \<Rightarrow> Invalid | Unmodelled \<Rightarrow> Unmodelled)
      else if c = CHR ''('' \<or> c = CHR '')'' \<or> c = CHR ''|'' \<or> c = CHR ''^'' \<or> c = CHR ''$''
        then Unmodelled
      else Ok (Char c, cs))"

definition parse_term :: "char \<Rightarrow> string \<Rightarrow> (quantified \<times> string) parse" where
  "parse_term c cs =
     (case parse_atom c cs of
        Ok (a, rest) \<Rightarrow>
          (case quantifier rest of
             Ok ((mn, mx), rest') \<Rightarrow> Ok ((a, mn, mx), rest')
           | Invalid \<Rightarrow> Invalid
           | Unmodelled \<Rightarrow> Unmodelled)
      | Invalid \<Rightarrow> Invalid
      | Unmodelled \<Rightarrow> Unmodelled)"

text \<open>
  The whole pattern, term by term. What a term leaves is never longer than what
  followed its first character (\<open>parse_term_rest\<close> below), so the \<open>drop\<close>, which makes
  the recursion visibly decreasing, drops nothing.
\<close>

fun parse_terms :: "string \<Rightarrow> regex parse" where
  "parse_terms [] = Ok []"
| "parse_terms (c # cs) =
     (case parse_term c cs of
        Ok (t, rest) \<Rightarrow>
          (case parse_terms (drop (length rest - length cs) rest) of
             Ok ts \<Rightarrow> Ok (t # ts)
           | Invalid \<Rightarrow> Invalid
           | Unmodelled \<Rightarrow> Unmodelled)
      | Invalid \<Rightarrow> Invalid
      | Unmodelled \<Rightarrow> Unmodelled)"

definition RegExp :: "string \<Rightarrow> regex parse" where
  "RegExp pattern = parse_terms pattern"

text \<open>
  Matching. Every atom takes exactly one character, so a greedy quantifier takes the
  longest run of matching characters its upper bound allows and on failure of what
  follows gives them back one at a time, down to its lower bound. \<open>match_here\<close> is
  the length of the match that starts where the string starts.
\<close>

definition atom_matches :: "atom \<Rightarrow> char \<Rightarrow> bool" where
  "atom_matches a c =
     (case a of
        Char c' \<Rightarrow> c = c'
      | Any \<Rightarrow> c \<noteq> CHR 0x0A \<and> c \<noteq> CHR 0x0D
      | Class negated rs \<Rightarrow> negated \<noteq> in_ranges rs (of_char c))"

fun run :: "atom \<Rightarrow> nat option \<Rightarrow> string \<Rightarrow> nat" where
  "run a mx [] = 0"
| "run a mx (c # cs) =
     (if atom_matches a c \<and> mx \<noteq> Some 0
      then Suc (run a (map_option (\<lambda>m. m - 1) mx) cs)
      else 0)"

fun backtrack :: "(string \<Rightarrow> nat option) \<Rightarrow> string \<Rightarrow> nat \<Rightarrow> nat \<Rightarrow> nat option" where
  "backtrack continue s mn 0 = continue s"
| "backtrack continue s mn (Suc k) =
     (case continue (drop (Suc k) s) of
        Some l \<Rightarrow> Some (Suc k + l)
      | None \<Rightarrow> if Suc k \<le> mn then None else backtrack continue s mn k)"

primrec match_here :: "regex \<Rightarrow> string \<Rightarrow> nat option" where
  "match_here [] = (\<lambda>s. Some 0)"
| "match_here (t # ts) =
     (\<lambda>s. case t of (a, mn, mx) \<Rightarrow>
        (let k = run a mx s
         in if k < mn then None else backtrack (match_here ts) s mn k))"

text \<open>
  \<open>str.replace(regex, fn)\<close> with the \<open>g\<close> flag: the matches are found from left to
  right, each search starting where the last match ended, one character further after
  an empty match; every match is replaced by what \<open>fn\<close> returns for it, and an
  exception of \<open>fn\<close> ends the call.
\<close>

fun replace :: "regex \<Rightarrow> (string \<Rightarrow> error + string) \<Rightarrow> string \<Rightarrow> error + string" where
  "replace re fn [] =
     (case match_here re [] of
        None \<Rightarrow> Inr []
      | Some _ \<Rightarrow> fn [])"
| "replace re fn (c # cs) =
     (case match_here re (c # cs) of
        None \<Rightarrow>
          (case replace re fn cs of Inl e \<Rightarrow> Inl e | Inr out \<Rightarrow> Inr (c # out))
      | Some 0 \<Rightarrow>
          (case fn [] of
             Inl e \<Rightarrow> Inl e
           | Inr r \<Rightarrow> (case replace re fn cs of Inl e \<Rightarrow> Inl e | Inr out \<Rightarrow> Inr (r @ c # out)))
      | Some (Suc k) \<Rightarrow>
          (case fn (c # take k cs) of
             Inl e \<Rightarrow> Inl e
           | Inr r \<Rightarrow>
               (case replace re fn (drop k cs) of Inl e \<Rightarrow> Inl e | Inr out \<Rightarrow> Inr (r @ out))))"

section \<open>\<open>cli.js\<close>: \<open>redactFile\<close>\<close>

text \<open>
  \<open>rules\<close> is the object parsed from the command line; \<open>Object.entries\<close> lists its keys
  with their values in order, an association list. The identifier \<open>mask\<close> that the
  callback calls is free in \<open>cli.js\<close>; the model takes its binding as the parameter
  \<open>mask_fn\<close>. Bound to the function of \<open>src/mask.js\<close> it is \<open>mask_js\<close>; left unbound,
  every call raises a ReferenceError (\<open>unbound\<close>).

  \<open>apply_rule\<close> is the body of the loop for one rule, with its \<open>try\<close> and \<open>catch\<close>: an
  exception of the constructor or of the replacement is reported and the text stays
  as it was. The result is \<open>None\<close> where the pattern is outside the modelled fragment.
\<close>

type_synonym mask_binding = "jsval \<Rightarrow> options \<Rightarrow> error + string"

definition unbound :: mask_binding where
  "unbound str opts = Inl ReferenceError"

definition apply_rule :: "mask_binding \<Rightarrow> string \<Rightarrow> string \<times> options \<Rightarrow> string option" where
  "apply_rule mask_fn redactedData entry =
     (case entry of (key, rule) \<Rightarrow>
        (case RegExp key of
           Invalid \<Rightarrow> Some redactedData
         | Unmodelled \<Rightarrow> None
         | Ok regex \<Rightarrow>
             (case replace regex (\<lambda>match. mask_fn (JString match) rule) redactedData of
                Inl error \<Rightarrow> Some redactedData
              | Inr replaced \<Rightarrow> Some replaced)))"

fun redact :: "mask_binding \<Rightarrow> string \<Rightarrow> (string \<times> options) list \<Rightarrow> string option" where
  "redact mask_fn redactedData [] = Some redactedData"
| "redact mask_fn redactedData (entry # rules) =
     (case apply_rule mask_fn redactedData entry of
        None \<Rightarrow> None
      | Some data \<Rightarrow> redact mask_fn data rules)"

text \<open>
  The files are a map from paths to contents. A file that cannot be read ends the call
  with nothing written; otherwise the redacted text is written to \<open>outputPath\<close>.
\<close>

definition redactFile ::
  "mask_binding \<Rightarrow> (string \<rightharpoonup> string) \<Rightarrow> string \<Rightarrow> (string \<times> options) list \<Rightarrow> string
     \<Rightarrow> (string \<rightharpoonup> string) option" where
  "redactFile mask_fn files filePath rules outputPath =
     (case files filePath of
        None \<Rightarrow> Some files
      | Some data \<Rightarrow>
          (case redact mask_fn data rules of
             None \<Rightarrow> None
           | Some redactedData \<Rightarrow> Some (files(outputPath \<mapsto> redactedData))))"

section \<open>The specification's formula for \<open>Mask\<close>\<close>

text \<open>
  The formula as the specification words it, over the rationals: the ratio table
  \<open>{low: 0.3, medium: 0.7, high: 1.0}\<close> with medium's value for any other key, and
  rounding half up.
\<close>

definition spec_ratio :: "string \<Rightarrow> rat" where
  "spec_ratio key =
     (if key = ''low'' then 3 / 10
      else if key = ''medium'' then 7 / 10
      else if key = ''high'' then 1
      else 7 / 10)"

definition spec_maskedLength :: "int \<Rightarrow> string \<Rightarrow> nat" where
  "spec_maskedLength hiddenSpan key = nat \<lfloor>of_int hiddenSpan * spec_ratio key + 1 / 2\<rfloor>"

definition spec_Mask :: "string \<Rightarrow> int \<Rightarrow> int \<Rightarrow> string \<Rightarrow> string \<Rightarrow> string" where
  "spec_Mask s vs ve m key =
     take (nat vs) s
       @ concat (replicate (spec_maskedLength (int (length s) - vs - ve) key) m)
       @ drop (nat (int (length s) - ve)) s"

text \<open>A string of 49 characters: with the defaults its hidden span is 45.\<close>

definition forty_nine :: string where
  "forty_nine = ''0123456789012345678901234567890123456789012345678''"

text \<open>
  The filter of \<open>test/bloomFilter.test.js\<close>, \<open>new BloomFilter(100, [1, 7])\<close>, and the
  filter \<open>new BloomFilter()\<close> of the constructor's defaults.
\<close>

definition test_filter :: BloomFilter where
  "test_filter = \<lparr>size_bf = 100,
     bitArray = (\<lambda>key. case key of Some i \<Rightarrow> if i < 100 then Some 0 else None | None \<Rightarrow> None),
     hashFunctions = [1, 7]\<rparr>"

definition fresh_filter :: BloomFilter where
  "fresh_filter = \<lparr>size_bf = 100,
     bitArray = (\<lambda>key. case key of Some i \<Rightarrow> if i < 100 then Some 0 else None | None \<Rightarrow> None),
     hashFunctions = []\<rparr>"

section \<open>The inputs of the command-line test\<close>

text \<open>
  The file and the two rules of the test \<open>should redact sensitive data from a file\<close>.
  A backslash of a pattern is written \<open>CHR 0x5C\<close>. \<open>card_regex\<close> and \<open>email_regex\<close> are
  what the two patterns compile to, \<open>card_redacted\<close> is the file after the first rule,
  and \<open>invalid_pattern\<close> is a pattern with an unterminated class.
\<close>

definition backslash :: string where
  "backslash = [CHR 0x5C]"

definition card_pattern :: string where
  "card_pattern =
     backslash @ ''d{4}-'' @ backslash @ ''d{4}-'' @ backslash @ ''d{4}-'' @ backslash @ ''d{4}''"

definition email_pattern :: string where
  "email_pattern = ''[a-zA-Z0-9._%+-]+@[a-zA-Z0-9.-]+'' @ backslash @ ''.[a-zA-Z]{2,}''"

definition card_rule :: options where
  "card_rule = no_options\<lparr>visibleStart := Some 4, visibleEnd := Some 4\<rparr>"

definition email_rule :: options where
  "email_rule = no_options\<lparr>sensitivity := Some ''high''\<rparr>"

definition test_rules :: "(string \<times> options) list" where
  "test_rules = [(card_pattern, card_rule), (email_pattern, email_rule)]"

definition test_content :: string where
  "test_content = ''My credit card is 1234-5678-9012-3456 and my email is test@example.com''"

definition card_regex :: regex where
  "card_regex =
     [(Class False digit, 4, Some 4), (Char CHR ''-'', 1, Some 1),
      (Class False digit, 4, Some 4), (Char CHR ''-'', 1, Some 1),
      (Class False digit, 4, Some 4), (Char CHR ''-'', 1, Some 1),
      (Class False digit, 4, Some 4)]"

definition email_regex :: regex where
  "email_regex =
     [(Class False [(97, 122), (65, 90), (48, 57), (46, 46), (95, 95), (37, 37), (43, 43), (45, 45)],
       1, None),
      (Char CHR ''@'', 1, Some 1),
      (Class False [(97, 122), (65, 90), (48, 57), (46, 46), (45, 45)], 1, None),
      (Char CHR ''.'', 1, Some 1),
      (Class False [(97, 122), (65, 90)], 2, None)]"

definition card_redacted :: string where
  "card_redacted = ''My credit card is 1234********3456 and my email is test@example.com''"

definition invalid_pattern :: string where
  "invalid_pattern = ''[a-z''"

section \<open>Evaluation\<close>

text \<open>
  Equations that let the simplifier run the model on concrete inputs, numerals staying
  binary.
\<close>

lemma bit_length_numeral [simp]:
  "bit_length 0 = 0"
  "bit_length 1 = 1"
  "bit_length (Suc 0) = 1"
  "bit_length (numeral Num.One) = 1"
  "bit_length (numeral (Num.Bit0 k)) = 1 + bit_length (numeral k)"
  "bit_length (numeral (Num.Bit1 k)) = 1 + bit_length (numeral k)"
  by (subst bit_length.simps, simp add: bit_length.simps)+

lemma replicate_num: "replicate (numeral k) x = x # replicate (pred_numeral k) x"
  by (simp add: numeral_eq_Suc)

lemmas mask_eval =
  mask_js_def no_options_def default_def sensitivityLevels_def maskedPartLength_def
  double_mul_def double_0_7_def double_0_3_def double_1_def Math_round_def
  round_to_double_def substring_def substring_from_def repeat_def replicate_num
  Object_prototype_def

section \<open>The double arithmetic of \<open>mask\<close>\<close>

text \<open>
  The three constants are the doubles nearest to 0.3, 0.7 and 1: each has a 53-bit
  significand, and ten times the constant differs from 3, 7 and 10 units by less than
  half a unit in the last place.
\<close>

lemma double_constants:
  "double_0_3 < 2 ^ 53" "2 ^ 52 \<le> double_0_3"
  "10 * double_0_3 + 2 = 3 * 2 ^ 54"
  "double_0_7 = 2 * 6305039478318694" "6305039478318694 < (2::nat) ^ 53"
  "10 * double_0_7 + 8 = 7 * 2 ^ 54"
  "10 * double_1 = 10 * 2 ^ 54"
  by (simp_all add: double_0_3_def double_0_7_def double_1_def)

lemma bit_length_le: "n < 2 ^ k \<Longrightarrow> bit_length n \<le> k"
proof (induction n arbitrary: k rule: bit_length.induct)
  case (1 n)
  show ?case
  proof (cases "n = 0")
    case True
    then show ?thesis by simp
  next
    case False
    with "1.prems" obtain j where k: "k = Suc j" by (cases k) auto
    with "1.prems" have "n div 2 < 2 ^ j" by auto
    with "1.IH" [OF False] have "bit_length (n div 2) \<le> j" by blast
    with False k show ?thesis by (subst bit_length.simps) simp
  qed
qed

lemma bit_length_ge: "n \<noteq> 0 \<Longrightarrow> 2 ^ (bit_length n - 1) \<le> n"
proof (induction n rule: bit_length.induct)
  case (1 n)
  show ?case
  proof (cases "n div 2 = 0")
    case True
    with "1.prems" have "n = 1" by presburger
    then show ?thesis by simp
  next
    case False
    with "1.IH" "1.prems" have ih: "2 ^ (bit_length (n div 2) - 1) \<le> n div 2" by blast
    from False have pos: "0 < bit_length (n div 2)" by (subst bit_length.simps) simp
    have "bit_length n - 1 = Suc (bit_length (n div 2) - 1)"
      using "1.prems" pos by (subst bit_length.simps) simp
    then have "(2::nat) ^ (bit_length n - 1) = 2 * 2 ^ (bit_length (n div 2) - 1)" by simp
    also have "\<dots> \<le> 2 * (n div 2)" using ih by simp
    also have "\<dots> \<le> n" by simp
    finally show ?thesis .
  qed
qed

text \<open>An integer below \<open>2^53\<close> is a double, and so is its product with 1.\<close>

lemma round_to_double_exact:
  assumes "h < 2 ^ 53"
  shows "round_to_double (h * 2 ^ 54) = h * 2 ^ 54"
proof -
  define s where "s = bit_length (h * 2 ^ 54) - 53"
  have "h * 2 ^ 54 < 2 ^ 53 * (2 ^ 54 :: nat)" using assms by simp
  then have "h * 2 ^ 54 < (2 :: nat) ^ 107" by simp
  then have "bit_length (h * 2 ^ 54) \<le> 107" by (rule bit_length_le)
  then have s: "s \<le> 54" by (simp add: s_def)
  then have "(2::nat) ^ s dvd 2 ^ 54" by (rule le_imp_power_dvd)
  then have dvd: "2 ^ s dvd h * 2 ^ 54" by (rule dvd_mult)
  then have r: "(h * 2 ^ 54) mod 2 ^ s = 0" by simp
  from dvd have q: "(h * 2 ^ 54) div 2 ^ s * 2 ^ s = h * 2 ^ 54" by simp
  show ?thesis
    unfolding round_to_double_def Let_def s_def [symmetric] r using q by simp
qed

lemma Math_round_integer: "Math_round (h * 2 ^ 54) = h"
  by (simp add: Math_round_def)

text \<open>Rounding to a double moves a value by less than one part in \<open>2^52\<close>.\<close>

lemma round_to_double_error:
  "round_to_double p \<le> p + p div 2 ^ 52 \<and> p \<le> round_to_double p + p div 2 ^ 52"
proof -
  define s where "s = bit_length p - 53"
  define E :: nat where "E = 2 ^ s"
  define X where "X = p div E * E"
  define r where "r = p mod E"
  have p: "p = X + r" unfolding X_def r_def by (rule div_mult_mod_eq [symmetric])
  have "0 < E" by (simp add: E_def)
  then have r: "r < E" unfolding r_def by (rule mod_less_divisor)
  have "(p div E + 1) * E = X + E" by (simp add: X_def add_mult_distrib)
  then have rd: "round_to_double p = X \<or> round_to_double p = X + E"
    by (simp add: round_to_double_def Let_def s_def [symmetric] E_def [symmetric] X_def)
  show ?thesis
  proof (cases "s = 0")
    case True
    then have "E = 1" by (simp add: E_def)
    then have "r = 0" "X = p" by (simp_all add: r_def X_def)
    moreover have "round_to_double p = X"
      using \<open>E = 1\<close>
      by (simp add: round_to_double_def Let_def s_def [symmetric] E_def [symmetric] X_def)
    ultimately show ?thesis by simp
  next
    case False
    then have "p \<noteq> 0" by (cases "p = 0") (simp_all add: s_def)
    then have "2 ^ (bit_length p - 1) \<le> p" by (rule bit_length_ge)
    moreover have "bit_length p - 1 = s + 52" using False by (simp add: s_def)
    ultimately have "E * 2 ^ 52 \<le> p" by (simp add: power_add E_def)
    then have "E \<le> p div 2 ^ 52" by (simp add: less_eq_div_iff_mult_less_eq)
    with rd p r show ?thesis by linarith
  qed
qed

text \<open>
  For a ratio \<open>R\<close> within 8 units of \<open>num/10\<close> from below and a factor below \<open>2^32\<close>,
  \<open>Math.round\<close> of the double product is the exact product rounded half up, unless
  the exact product lies halfway between two integers.
\<close>

lemma Math_round_double_mul:
  assumes R: "10 * R \<le> num * 2 ^ 54" "num * 2 ^ 54 \<le> 10 * R + 8" "num \<le> 10"
    and h: "h < 2 ^ 32"
    and tie: "(h * num) mod 10 \<noteq> 5"
  shows "Math_round (double_mul h R) = (h * num + 5) div 10"
proof -
  define p where "p = h * R"
  define p' where "p' = round_to_double p"
  define D where "D = p div 2 ^ 52"
  define k where "k = (h * num) div 10"
  define f where "f = (h * num) mod 10"
  define B :: nat where "B = 2 ^ 54"
  have B: "B = 18014398509481984" by (simp add: B_def)
  have hn: "h * num = 10 * k + f" by (simp add: k_def f_def)
  have f: "f < 10" by (simp add: f_def)
  have err: "p' \<le> p + D" "p \<le> p' + D"
    using round_to_double_error [of p] by (simp_all add: p'_def D_def)
  have R1: "10 * R \<le> num * B" and R2: "num * B \<le> 10 * R + 8"
    using R by (simp_all only: B_def)
  have "10 * p = h * (10 * R)" by (simp only: p_def ac_simps)
  also have "\<dots> \<le> h * (num * B)" using R1 by (rule mult_le_mono2)
  also have "\<dots> = (10 * k + f) * B" by (simp only: hn [symmetric] mult.assoc)
  finally have up: "10 * p \<le> (10 * k + f) * B" .
  have "(10 * k + f) * B = h * (num * B)" by (simp only: hn [symmetric] mult.assoc)
  also have "\<dots> \<le> h * (10 * R + 8)" using R2 by (rule mult_le_mono2)
  also have "\<dots> = 10 * p + 8 * h" by (simp only: p_def ac_simps distrib_left)
  finally have lo: "(10 * k + f) * B \<le> 10 * p + 8 * h" .
  have "h * num \<le> h * 10" using R(3) by (rule mult_le_mono2)
  then have kh: "10 * k + f \<le> 10 * h" by (simp add: hn ac_simps)
  have "p \<le> h * B"
  proof -
    have "10 * p \<le> (10 * h) * B" using up kh by (meson le_trans mult_le_mono1)
    then show ?thesis by simp
  qed
  then have "p div 2 ^ 52 \<le> (h * B) div 2 ^ 52" by (rule div_le_mono)
  also have "(h * B) div 2 ^ 52 = 4 * h" by (simp add: B_def)
  finally have D: "D \<le> 4 * h" by (simp add: D_def)
  have h': "h < 4294967296" using h by simp
  have dist: "(10 * k + f) * B = 10 * (k * B) + f * B" by (simp add: algebra_simps)
  show ?thesis
  proof (cases "f < 5")
    case True
    then have fB: "f * B \<le> 4 * B" by simp
    have 1: "B * k \<le> p' + 2 ^ 53"
      using err D lo h' dist B by (simp add: ac_simps; linarith)
    have 2: "p' + 2 ^ 53 < B * Suc k"
      using err D up h' dist B fB by (simp add: ac_simps; linarith)
    have "(p' + 2 ^ 53) div B = k" using 1 2 by (rule div_nat_eqI)
    moreover have "(h * num + 5) div 10 = k" using True by (simp add: hn)
    ultimately show ?thesis by (simp add: Math_round_def double_mul_def p'_def p_def B_def)
  next
    case False
    with tie f have f6: "6 \<le> f" "f \<le> 9" by (simp_all add: f_def)
    then have fB: "6 * B \<le> f * B" "f * B \<le> 9 * B" by simp_all
    have 1: "B * Suc k \<le> p' + 2 ^ 53"
      using err D lo h' dist B fB by (simp add: ac_simps; linarith)
    have 2: "p' + 2 ^ 53 < B * Suc (Suc k)"
      using err D up h' dist B fB by (simp add: ac_simps; linarith)
    have "(p' + 2 ^ 53) div B = Suc k" using 1 2 by (rule div_nat_eqI)
    moreover have "(h * num + 5) div 10 = Suc k" using f6 by (simp add: hn)
    ultimately show ?thesis by (simp add: Math_round_def double_mul_def p'_def p_def B_def)
  qed
qed

section \<open>Properties of \<open>mask\<close>\<close>

lemma substring_prefix: "substring s 0 vs = take (nat vs) s"
  by (auto simp: substring_def Let_def min_def max_def)

lemma substring_from_suffix: "substring_from s start = drop (nat start) s"
  by (auto simp: substring_from_def substring_def Let_def min_def max_def)

lemma maskRatio_own:
  "key \<notin> set Object_prototype \<Longrightarrow>
   (case sensitivityLevels key of Some v \<Rightarrow> v | None \<Rightarrow> Number double_0_7) =
   Number (if key = ''low'' then double_0_3 else if key = ''high'' then double_1 else double_0_7)"
  by (simp add: sensitivityLevels_def)

lemma mask_js_literal_form:
  assumes "default (Literal ''*'') (maskChar opts) = Literal m"
    and "default 2 (visibleStart opts) + default 2 (visibleEnd opts) < int (length s)"
  shows "mask_js (JString s) opts =
    Inr (take (nat (default 2 (visibleStart opts))) s
         @ repeat m (maskedPartLength
               (int (length s) - default 2 (visibleStart opts) - default 2 (visibleEnd opts))
               (case sensitivityLevels (default ''medium'' (sensitivity opts)) of
                  Some v \<Rightarrow> v | None \<Rightarrow> Number double_0_7))
         @ drop (nat (int (length s) - default 2 (visibleEnd opts))) s)"
  using assms by (simp add: mask_js_def Let_def substring_prefix substring_from_suffix)

text \<open>
  A sensitivity key that names a member of \<open>Object.prototype\<close> gives a ratio that is
  not a number and an empty masked part; any other key outside the table takes
  medium's ratio. A \<open>maskChar\<close> that is neither a string nor a function raises a
  TypeError.
\<close>

lemma mask_inherited_key_example:
  "mask_js (JString ''secret1234'') (no_options\<lparr>sensitivity := Some ''toString''\<rparr>) = Inr ''se34''
   \<and> mask_js (JString ''secret1234'') (no_options\<lparr>sensitivity := Some ''unknown''\<rparr>) = Inr ''se****34''"
  by (simp add: mask_eval)

lemma mask_other_maskChar_example:
  "mask_js (JString ''secret1234'') (no_options\<lparr>maskChar := Some Other\<rparr>) = Inl TypeError"
  by (simp add: mask_eval)

text \<open>
  Claim C3. For every string \<open>s\<close> and every configuration whose \<open>visibleStart\<close> and
  \<open>visibleEnd\<close> (2 each when absent) add up to at least the length of \<open>s\<close>, \<open>mask\<close>
  returns \<open>s\<close> itself, as a result and not as an error; so does the copy of the function
  in \<open>index.js\<close>.
\<close>

theorem mask_short_circuit:
  assumes "default 2 (visibleStart opts) + default 2 (visibleEnd opts) \<ge> int (length s)"
  shows "mask_js (JString s) opts = Inr s \<and> stringUtils_mask (JString s) opts = Inr s"
  using assms by (simp add: mask_js_def stringUtils_mask_def Let_def)

theorem mask_short_circuit_witness:
  "default 2 (visibleStart (no_options\<lparr>visibleStart := Some 3, visibleEnd := Some 3\<rparr>))
     + default 2 (visibleEnd (no_options\<lparr>visibleStart := Some 3, visibleEnd := Some 3\<rparr>))
     \<ge> int (length ''short'')
   \<and> mask_js (JString ''short'') (no_options\<lparr>visibleStart := Some 3, visibleEnd := Some 3\<rparr>)
       = Inr ''short''
   \<and> stringUtils_mask (JString ''short'')
         (no_options\<lparr>visibleStart := Some 3, visibleEnd := Some 3\<rparr>)
       = Inr ''short''"
  using mask_short_circuit
    [of "''short''" "no_options\<lparr>visibleStart := Some 3, visibleEnd := Some 3\<rparr>"]
  by (simp add: default_def no_options_def)

text \<open>
  Claim C7. For every input that is not a string and every configuration, \<open>mask\<close>
  returns the empty string; it raises nothing.
\<close>

theorem mask_non_string:
  assumes "\<forall>s. str \<noteq> JString s"
  shows "mask_js str opts = Inr []"
  using assms by (cases str) (simp_all add: mask_js_def)

theorem mask_non_string_witness:
  "(\<forall>s. JNumber 123 \<noteq> JString s) \<and> mask_js (JNumber 123) no_options = Inr []"
  using mask_non_string [of "JNumber 123" no_options] by simp

text \<open>
  Claim C5. With no options (\<open>visibleStart = 2\<close>, \<open>visibleEnd = 2\<close>, sensitivity
  medium) \<open>mask\<close> turns \<open>1234-5678-9012-3456\<close> into a string of 15 characters: the first
  two characters, 11 asterisks, the last two characters. The hidden span is 15, the
  double product \<open>15 * 0.7\<close> is 10.5 and \<open>Math.round\<close> takes it to 11.
\<close>

theorem mask_default_card:
  "mask_js (JString ''1234-5678-9012-3456'') no_options = Inr ''12***********56''
   \<and> ''12***********56'' = take 2 ''1234-5678-9012-3456'' @ replicate 11 CHR ''*'' @ drop 17 ''1234-5678-9012-3456''
   \<and> length ''12***********56'' = 15
   \<and> int (length ''1234-5678-9012-3456'') - 2 - 2 = 15
   \<and> maskedPartLength 15 (Number double_0_7) = Some 11"
  by (simp add: mask_eval)

subsection \<open>The masked length against the rounded exact product\<close>

lemma spec_maskedLength_div:
  assumes "0 \<le> h" "spec_ratio key = of_nat num / 10"
  shows "spec_maskedLength h key = (nat h * num + 5) div 10"
proof -
  have "of_int h * spec_ratio key + 1 / 2 = (of_int (h * int num + 5) :: rat) / of_int 10"
    by (simp add: assms(2) field_simps)
  then have "\<lfloor>of_int h * spec_ratio key + 1 / 2\<rfloor> = (h * int num + 5) div 10"
    by (simp only: floor_divide_of_int_eq)
  moreover have "nat ((h * int num + 5) div 10) = (nat h * num + 5) div 10"
    using assms(1) by (simp add: nat_div_distrib nat_add_distrib nat_mult_distrib)
  ultimately show ?thesis by (simp add: spec_maskedLength_def)
qed

lemma spec_tie:
  assumes "0 \<le> h" "spec_ratio key = of_nat num / 10"
    and "of_int h * spec_ratio key + 1 / 2 \<notin> (\<int> :: rat set)"
  shows "(nat h * num) mod 10 \<noteq> 5"
proof
  assume m: "(nat h * num) mod 10 = 5"
  define k where "k = (nat h * num) div 10"
  have "nat h * num = 10 * k + 5" using m by (simp add: k_def) presburger
  then have "int (nat h * num) = int (10 * k + 5)" by simp
  then have "h * int num = 10 * int k + 5" using assms(1) by simp
  then have "(of_int (h * int num) :: rat) = of_int (10 * int k + 5)" by simp
  then have "(of_int h :: rat) * of_nat num = 10 * of_nat k + 5" by simp
  then have "of_int h * spec_ratio key + 1 / 2 = (of_nat (k + 1) :: rat)"
    by (simp add: assms(2) field_simps)
  then have "of_int h * spec_ratio key + 1 / 2 \<in> (\<int> :: rat set)"
    by (simp only: Ints_of_nat)
  with assms(3) show False by simp
qed

lemma spec_ratio_cases:
  "spec_ratio key = of_nat (if key = ''low'' then 3 else if key = ''high'' then 10 else 7) / 10"
  by (simp add: spec_ratio_def)

lemma maskedPartLength_high:
  assumes "0 \<le> h" "h < 2 ^ 53"
  shows "maskedPartLength h (Number double_1) = Some (nat h)"
proof -
  have "nat h < 2 ^ 53" using assms by (simp add: nat_less_iff)
  then have "round_to_double (nat h * 2 ^ 54) = nat h * 2 ^ 54" by (rule round_to_double_exact)
  then show ?thesis
    by (simp only: maskedPartLength_def double_mul_def double_1_def Math_round_integer
          property.case)
qed

lemma maskedPartLength_spec:
  assumes key: "key \<notin> set Object_prototype"
    and h: "0 \<le> h" "h < 2 ^ 32"
    and tie: "of_int h * spec_ratio key + 1 / 2 \<notin> (\<int> :: rat set)"
  shows "Math_round (double_mul (nat h)
           (if key = ''low'' then double_0_3 else if key = ''high'' then double_1 else double_0_7))
         = spec_maskedLength h key"
proof -
  define num :: nat where "num = (if key = ''low'' then 3 else if key = ''high'' then 10 else 7)"
  define R where
    "R = (if key = ''low'' then double_0_3 else if key = ''high'' then double_1 else double_0_7)"
  have sr: "spec_ratio key = of_nat num / 10" unfolding num_def by (rule spec_ratio_cases)
  have R: "10 * R \<le> num * 2 ^ 54" "num * 2 ^ 54 \<le> 10 * R + 8" "num \<le> 10"
    by (simp_all add: R_def num_def double_0_3_def double_0_7_def double_1_def)
  have h': "nat h < 2 ^ 32" using h by (simp add: nat_less_iff)
  have "(nat h * num) mod 10 \<noteq> 5" using h(1) sr tie by (rule spec_tie)
  with R h' have "Math_round (double_mul (nat h) R) = (nat h * num + 5) div 10"
    by (rule Math_round_double_mul)
  also have "\<dots> = spec_maskedLength h key" using h(1) sr by (rule spec_maskedLength_div [symmetric])
  finally show ?thesis by (simp only: R_def)
qed

text \<open>
  Claim C4. With sensitivity \<open>high\<close>, \<open>visibleStart\<close> and \<open>visibleEnd\<close> non-negative and
  together below the length of \<open>s\<close>, and a mask character that is a one-character
  string, the masked length is the whole hidden span: the result is as long as \<open>s\<close>,
  keeps the visible prefix and suffix, and carries the mask character at every position
  of the hidden span. The length of a string is below \<open>2^53\<close> (ECMA-262 allows at most
  \<open>2^53 - 1\<close> code units), so the hidden span is a double and its product with 1 is exact.
\<close>

theorem mask_high_sensitivity:
  assumes sens: "sensitivity opts = Some ''high''"
    and mc: "default (Literal ''*'') (maskChar opts) = Literal [c]"
    and vs: "default 2 (visibleStart opts) = vs" "0 \<le> vs"
    and ve: "default 2 (visibleEnd opts) = ve" "0 \<le> ve"
    and lt: "vs + ve < int (length s)"
    and len: "length s < 2 ^ 53"
  shows "maskedPartLength (int (length s) - vs - ve) (Number double_1)
           = Some (nat (int (length s) - vs - ve))
       \<and> (case mask_js (JString s) opts of
            Inl e \<Rightarrow> False
          | Inr r \<Rightarrow>
              r = take (nat vs) s @ replicate (nat (int (length s) - vs - ve)) c
                    @ drop (nat (int (length s) - ve)) s
              \<and> length r = length s
              \<and> (\<forall>i. nat vs \<le> i \<and> i < length s - nat ve \<longrightarrow> r ! i = c))"
proof -
  define h where "h = int (length s) - vs - ve"
  have h: "0 \<le> h" "h < 2 ^ 53" using vs ve lt len by (simp_all add: h_def)
  then have mpl: "maskedPartLength h (Number double_1) = Some (nat h)"
    by (rule maskedPartLength_high)
  define r where "r = take (nat vs) s @ replicate (nat h) c @ drop (nat (int (length s) - ve)) s"
  have "sensitivityLevels (default ''medium'' (sensitivity opts)) = Some (Number double_1)"
    by (simp add: sens default_def sensitivityLevels_def)
  with mask_js_literal_form [OF mc] lt vs ve mpl have m: "mask_js (JString s) opts = Inr r"
    by (simp add: h_def r_def repeat_def)
  have l1: "length (take (nat vs) s) = nat vs" using vs ve lt by simp
  have lr: "length r = length s" using vs ve lt by (simp add: r_def h_def)
  have nth: "r ! i = c" if "nat vs \<le> i" "i < length s - nat ve" for i
  proof -
    have "i - nat vs < nat h" using that vs ve lt by (simp add: h_def; linarith)
    then show ?thesis using that l1 by (simp add: r_def nth_append)
  qed
  show ?thesis using mpl m lr nth by (simp add: h_def r_def)
qed

theorem mask_high_sensitivity_witness:
  "mask_js (JString ''secret1234'') (no_options\<lparr>sensitivity := Some ''high''\<rparr>) = Inr ''se******34''
   \<and> maskedPartLength 6 (Number double_1) = Some 6
   \<and> length ''se******34'' = length ''secret1234''
   \<and> ''se******34'' ! 4 = CHR ''*''"
  using mask_high_sensitivity [of "no_options\<lparr>sensitivity := Some ''high''\<rparr>" "CHR ''*''" 2 2 "''secret1234''"]
  by (simp add: no_options_def default_def replicate_num split: sum.splits)

text \<open>
  The masked length is at most the hidden span, so a mask string of at most one
  character gives a masked part no longer than the span it replaces.
\<close>

lemma Math_round_double_mul_le:
  assumes R: "10 * R \<le> 7 * 2 ^ 54"
  shows "Math_round (double_mul h R) \<le> h"
proof -
  define p where "p = h * R"
  define p' where "p' = round_to_double p"
  define B :: nat where "B = 2 ^ 54"
  have B: "B = 18014398509481984" by (simp add: B_def)
  have err: "p' \<le> p + p div 2 ^ 52"
    using round_to_double_error [of p] by (simp add: p'_def)
  have R1: "10 * R \<le> 7 * B" using R by (simp only: B_def)
  have "10 * p = h * (10 * R)" by (simp only: p_def ac_simps)
  also have "\<dots> \<le> h * (7 * B)" using R1 by (rule mult_le_mono2)
  finally have up: "10 * p \<le> 7 * (h * B)" by (simp only: ac_simps)
  then have "p \<le> h * B" by simp
  then have "p div 2 ^ 52 \<le> (h * B) div 2 ^ 52" by (rule div_le_mono)
  also have "(h * B) div 2 ^ 52 = 4 * h" by (simp add: B_def)
  finally have D: "p div 2 ^ 52 \<le> 4 * h" .
  have hB: "h * B = 18014398509481984 * h" by (simp add: B)
  have "p' + 2 ^ 53 < Suc h * B"
    using err D up hB by (simp add: B; linarith)
  then have "(p' + 2 ^ 53) div B < Suc h" by (rule less_mult_imp_div_less)
  then show ?thesis by (simp add: Math_round_def double_mul_def p'_def p_def B_def)
qed

lemma masked_length_le_span:
  assumes "h < 2 ^ 53"
  shows "Math_round (double_mul h
           (if key = ''low'' then double_0_3 else if key = ''high'' then double_1 else double_0_7))
         \<le> h"
proof (cases "key \<noteq> ''low'' \<and> key = ''high''")
  case True
  have "double_mul h double_1 = h * 2 ^ 54"
    by (simp only: double_mul_def double_1_def round_to_double_exact [OF assms])
  then have "Math_round (double_mul h double_1) = h" by (simp only: Math_round_integer)
  with True show ?thesis by simp
next
  case False
  have "10 * (if key = ''low'' then double_0_3 else double_0_7) \<le> 7 * 2 ^ 54"
    by (simp add: double_0_3_def double_0_7_def)
  then have "Math_round (double_mul h (if key = ''low'' then double_0_3 else double_0_7)) \<le> h"
    by (rule Math_round_double_mul_le)
  with False show ?thesis by auto
qed

lemma one_character_fits:
  assumes "length m \<le> 1" "0 \<le> h" "h < 2 ^ 53"
  shows "length m
           * Math_round (double_mul (nat h)
               (if key = ''low'' then double_0_3 else if key = ''high'' then double_1 else double_0_7))
         \<le> nat h"
proof -
  have "nat h < 2 ^ 53" using assms(2,3) by (simp add: nat_less_iff)
  then have "Math_round (double_mul (nat h)
               (if key = ''low'' then double_0_3 else if key = ''high'' then double_1 else double_0_7))
             \<le> nat h"
    by (rule masked_length_le_span)
  moreover from assms(1) have "length m = 0 \<or> length m = 1" by linarith
  ultimately show ?thesis by auto
qed

text \<open>
  Claim C1, as amended. For every string \<open>s\<close> (shorter than \<open>2^53\<close>, as every string is)
  and configuration with \<open>visibleStart\<close> and \<open>visibleEnd\<close> non-negative and
  \<open>visibleStart + visibleEnd < length s\<close>, a literal mask string \<open>m\<close> whose repetition is
  no longer than the hidden span (as it is for every \<open>m\<close> of at most one character), and
  a sensitivity key that is not the name of a member of \<open>Object.prototype\<close>, \<open>mask\<close>
  returns \<open>s[0:visibleStart]\<close>, then \<open>m\<close> repeated \<open>maskedLength\<close> times, then
  \<open>s[length s - visibleEnd:]\<close>, a string no longer than \<open>s\<close>; \<open>maskedLength\<close> is
  \<open>Math.round\<close> of the product of the hidden span and the ratio, computed in double
  precision, and the ratio is the double 0.3 for \<open>low\<close>, 1 for \<open>high\<close> and 0.7 for
  \<open>medium\<close> and every other such key. Where the hidden span is below \<open>2^32\<close> and its
  exact product with 3/10, 7/10 or 1 does not lie halfway between two integers, this is
  the formula of the specification, the exact product rounded half up.
\<close>

theorem mask_literal_formula:
  assumes mc: "default (Literal ''*'') (maskChar opts) = Literal m"
    and key: "default ''medium'' (sensitivity opts) = key" "key \<notin> set Object_prototype"
    and vs: "default 2 (visibleStart opts) = vs" "0 \<le> vs"
    and ve: "default 2 (visibleEnd opts) = ve" "0 \<le> ve"
    and lt: "vs + ve < int (length s)"
    and len: "length s < 2 ^ 53"
    and fits: "length m
                 * Math_round (double_mul (nat (int (length s) - vs - ve))
                     (if key = ''low'' then double_0_3
                      else if key = ''high'' then double_1 else double_0_7))
               \<le> nat (int (length s) - vs - ve)"
  shows "(case mask_js (JString s) opts of
            Inl e \<Rightarrow> False
          | Inr r \<Rightarrow>
              r = take (nat vs) s
                    @ concat (replicate
                        (Math_round (double_mul (nat (int (length s) - vs - ve))
                           (if key = ''low'' then double_0_3
                            else if key = ''high'' then double_1 else double_0_7))) m)
                    @ drop (nat (int (length s) - ve)) s
              \<and> length r \<le> length s)
       \<and> (int (length s) - vs - ve < 2 ^ 32
            \<and> of_int (int (length s) - vs - ve) * spec_ratio key + 1 / 2 \<notin> (\<int> :: rat set)
          \<longrightarrow> mask_js (JString s) opts = Inr (spec_Mask s vs ve m key))"
proof -
  define h where "h = int (length s) - vs - ve"
  define L where "L = Math_round (double_mul (nat h)
     (if key = ''low'' then double_0_3 else if key = ''high'' then double_1 else double_0_7))"
  define r where "r = take (nat vs) s @ concat (replicate L m) @ drop (nat (int (length s) - ve)) s"
  have h0: "0 \<le> h" using lt by (simp add: h_def)
  have "maskedPartLength h
          (case sensitivityLevels key of Some v \<Rightarrow> v | None \<Rightarrow> Number double_0_7) = Some L"
    by (simp only: maskRatio_own [OF key(2)] maskedPartLength_def L_def property.case)
  with mask_js_literal_form [OF mc] lt vs(1) ve(1) key(1)
  have m: "mask_js (JString s) opts = Inr r"
    by (simp add: h_def r_def repeat_def)
  have "length (concat (replicate L m)) = length m * L"
    by (induction L) simp_all
  moreover have "length m * L \<le> nat h" using fits by (simp only: L_def h_def)
  ultimately have lr: "length r \<le> length s"
    using vs(2) ve(2) lt by (simp add: r_def h_def; linarith)
  have "L = spec_maskedLength h key"
    if "h < 2 ^ 32" "of_int h * spec_ratio key + 1 / 2 \<notin> (\<int> :: rat set)"
    unfolding L_def using key(2) h0 that by (rule maskedPartLength_spec)
  then show ?thesis using m lr by (simp add: h_def L_def r_def spec_Mask_def)
qed

theorem mask_literal_formula_witness:
  "mask_js (JString ''secret1234'') no_options = Inr ''se****34''
   \<and> length ''*'' * Math_round (double_mul (nat (int (length ''secret1234'') - 2 - 2)) double_0_7)
       \<le> nat (int (length ''secret1234'') - 2 - 2)
   \<and> length ''se****34'' \<le> length ''secret1234''
   \<and> int (length ''secret1234'') - 2 - 2 < 2 ^ 32
   \<and> of_int (int (length ''secret1234'') - 2 - 2) * spec_ratio ''medium'' + 1 / 2 \<notin> (\<int> :: rat set)
   \<and> spec_Mask ''secret1234'' 2 2 ''*'' ''medium'' = ''se****34''"
proof -
  have "(21 / 5 + 1 / 2 :: rat) = of_int 47 / of_int 10" by simp
  then have "frac (21 / 5 + 1 / 2 :: rat) \<noteq> 0"
    by (simp only: frac_def floor_divide_of_int_eq) simp
  then have "(21 / 5 + 1 / 2 :: rat) \<notin> \<int>" by (simp add: frac_eq_0_iff)
  then have tie: "of_int (int (length ''secret1234'') - 2 - 2) * spec_ratio ''medium'' + 1 / 2 \<notin> (\<int> :: rat set)"
    by (simp add: spec_ratio_def)
  have L: "Math_round (double_mul 6 double_0_7) = 4"
    by (simp add: Math_round_def double_mul_def double_0_7_def round_to_double_def)
  have S: "spec_maskedLength 6 ''medium'' = 4"
    using spec_maskedLength_div [of 6 "''medium''" 7] by (simp add: spec_ratio_def)
  show ?thesis
    using mask_literal_formula [of no_options "''*''" "''medium''" 2 2 "''secret1234''"] tie
    by (simp add: no_options_def default_def Object_prototype_def spec_Mask_def L S replicate_num
          split: sum.splits)
qed

text \<open>
  The claim as the specification states it, with the exact product rounded half up,
  fails where the double product falls below a tie: with the defaults a string of 49
  characters has the hidden span 45, \<open>45 * 0.7\<close> is 31.499999999999996 in double
  precision, and the result carries 31 asterisks where the formula asks for 32.
\<close>

theorem mask_literal_formula_counterexample:
  "default 2 (visibleStart no_options) + default 2 (visibleEnd no_options) < int (length forty_nine)
   \<and> default (Literal ''*'') (maskChar no_options) = Literal ''*''
   \<and> mask_js (JString forty_nine) no_options \<noteq> Inr (spec_Mask forty_nine 2 2 ''*'' ''medium'')"
  by (simp add: mask_eval forty_nine_def spec_Mask_def spec_maskedLength_def spec_ratio_def)

section \<open>Properties of \<open>compare\<close>\<close>

text \<open>
  The code units are below \<open>2^8\<close> here, so \<open>ToInt32\<close> leaves them and the accumulated
  result as they are; the result is 0 exactly when every pair of code units is equal.
\<close>

lemma xor_eq_0_int: "(a XOR b = 0) \<longleftrightarrow> a = b" for a b :: int
proof
  assume "a XOR b = 0"
  then have "a XOR (a XOR b) = a XOR 0" by simp
  then show "a = b" by (simp add: xor.assoc [symmetric])
qed simp

lemma of_char_range: "0 \<le> (of_char c :: int) \<and> (of_char c :: int) < 2 ^ 8"
proof -
  have "0 \<le> (of_char c :: int) mod 256" by (rule pos_mod_sign) simp
  moreover have "(of_char c :: int) mod 256 < 256" by (rule pos_mod_bound) simp
  ultimately show ?thesis by (simp only: of_char_mod_256) simp
qed

lemma ToInt32_small: "0 \<le> x \<Longrightarrow> x < 2 ^ 8 \<Longrightarrow> ToInt32 (Some x) = x"
  by (simp add: ToInt32_def signed_take_bit_int_eq_self)

lemma ToInt32_charCodeAt:
  "i < length s \<Longrightarrow> ToInt32 (charCodeAt s i) = of_char (s ! i)"
  using of_char_range [of "s ! i"] by (simp add: charCodeAt_def ToInt32_small)

lemma compare_fold:
  assumes "n \<le> length s1" "n \<le> length s2"
  defines "r \<equiv> fold (\<lambda>i result. ToInt32 (Some result)
                   OR (ToInt32 (charCodeAt s1 i) XOR ToInt32 (charCodeAt s2 i))) [0..<n] 0"
  shows "0 \<le> r \<and> r < 2 ^ 8 \<and> (r = 0 \<longleftrightarrow> take n s1 = take n s2)"
  using assms(1,2) unfolding r_def
proof (induction n)
  case 0
  show ?case by simp
next
  case (Suc n)
  define r0 where "r0 = fold (\<lambda>i result. ToInt32 (Some result)
                   OR (ToInt32 (charCodeAt s1 i) XOR ToInt32 (charCodeAt s2 i))) [0..<n] 0"
  define x where "x = (of_char (s1 ! n) :: int) XOR of_char (s2 ! n)"
  from Suc have ih: "0 \<le> r0" "r0 < 2 ^ 8" "r0 = 0 \<longleftrightarrow> take n s1 = take n s2"
    by (simp_all add: r0_def)
  have n: "n < length s1" "n < length s2" using Suc.prems by simp_all
  have x0: "0 \<le> x" using of_char_range [of "s1 ! n"] of_char_range [of "s2 ! n"]
    by (simp add: x_def)
  have "(of_char (s1 ! n) :: int) XOR of_char (s2 ! n) < 2 ^ 8"
    by (rule XOR_upper) (simp_all only: of_char_range)
  then have x: "0 \<le> x" "x < 2 ^ 8" using x0 by (simp_all only: x_def)
  have step: "fold (\<lambda>i result. ToInt32 (Some result)
                   OR (ToInt32 (charCodeAt s1 i) XOR ToInt32 (charCodeAt s2 i))) [0..<Suc n] 0
              = r0 OR x"
    using n ih(1,2) by (simp add: r0_def x_def ToInt32_charCodeAt ToInt32_small)
  have "r0 OR x < 2 ^ 8" using ih(1,2) x(2) by (rule OR_upper)
  moreover have "0 \<le> r0 OR x" using ih(1) x(1) by simp
  moreover have "(r0 OR x = 0) \<longleftrightarrow> take (Suc n) s1 = take (Suc n) s2"
    using n ih(3) by (auto simp: or_eq_0_iff x_def xor_eq_0_int take_Suc_conv_app_nth)
  ultimately show ?case by (simp only: step)
qed

lemma compare_loop_zero:
  "length s1 = length s2 \<Longrightarrow> (compare_loop s1 s2 = 0) \<longleftrightarrow> s1 = s2"
  using compare_fold [of "length s1" s1 s2] by (simp add: compare_loop_def)

text \<open>
  Claim C8. \<open>compare\<close> has no statement that raises, and it returns \<open>true\<close> exactly when
  both arguments are strings with the same code units, position by position: it is
  \<open>false\<close> when an argument is not a string, when the lengths differ and when some code
  unit differs, and \<open>true\<close> for two empty strings.
\<close>

theorem compare_iff_equal_strings:
  "compare a b \<longleftrightarrow> (\<exists>s. a = JString s \<and> b = JString s)"
proof (cases a)
  case (JString s1)
  show ?thesis
  proof (cases b)
    case (JString s2)
    show ?thesis
    proof (cases "length s1 = length s2")
      case True
      then show ?thesis using \<open>a = JString s1\<close> \<open>b = JString s2\<close>
        by (auto simp: compare_def compare_loop_zero)
    next
      case False
      then show ?thesis using \<open>a = JString s1\<close> \<open>b = JString s2\<close>
        by (auto simp: compare_def)
    qed
  qed (simp_all add: compare_def JString)
qed (simp_all add: compare_def)

theorem compare_iff_equal_strings_witness:
  "compare (JString ''test'') (JString ''test'') \<and> \<not> compare (JString ''test1'') (JString ''test2'')
   \<and> \<not> compare (JString ''test'') (JString ''testing'') \<and> \<not> compare (JNumber 123) (JString ''123'')
   \<and> \<not> compare JNull JUndefined \<and> compare (JString []) (JString [])"
  using compare_iff_equal_strings [of "JString ''test''" "JString ''test''"]
    compare_iff_equal_strings [of "JString ''test1''" "JString ''test2''"]
    compare_iff_equal_strings [of "JString ''test''" "JString ''testing''"]
    compare_iff_equal_strings [of "JNumber 123" "JString ''123''"]
    compare_iff_equal_strings [of JNull JUndefined]
    compare_iff_equal_strings [of "JString []" "JString []"]
  by simp

section \<open>Properties of the bloom filter\<close>

text \<open>
  \<open>add\<close> changes neither \<open>size\<close> nor \<open>hashFunctions\<close>, writes 1 at the key of every seed
  and leaves a 1 where there is one.
\<close>

lemma add_loop_fields [simp]:
  "size_bf (add_loop this str seeds) = size_bf this"
  "hashFunctions (add_loop this str seeds) = hashFunctions this"
  by (induction seeds arbitrary: this) (simp_all add: Let_def)

lemma BloomFilter_hash_cong:
  "size_bf g = size_bf this \<Longrightarrow> BloomFilter_hash g str seed = BloomFilter_hash this str seed"
  by (simp add: BloomFilter_hash_def)

lemma add_loop_keeps:
  "bitArray this key = Some 1 \<Longrightarrow> bitArray (add_loop this str seeds) key = Some 1"
  by (induction seeds arbitrary: this) (simp_all add: Let_def)

lemma add_loop_sets:
  "seed \<in> set seeds \<Longrightarrow>
   bitArray (add_loop this str seeds) (BloomFilter_hash this str seed) = Some 1"
proof (induction seeds arbitrary: this)
  case Nil
  then show ?case by simp
next
  case (Cons a seeds)
  define g where "g = this\<lparr>bitArray := (bitArray this)(BloomFilter_hash this str a \<mapsto> 1)\<rparr>"
  have hg: "BloomFilter_hash g str seed = BloomFilter_hash this str seed"
    by (rule BloomFilter_hash_cong) (simp add: g_def)
  show ?case
  proof (cases "seed = a")
    case True
    have "bitArray g (BloomFilter_hash this str a) = Some 1" by (simp add: g_def)
    then have "bitArray (add_loop g str seeds) (BloomFilter_hash this str a) = Some 1"
      by (rule add_loop_keeps)
    with True show ?thesis by (simp add: Let_def g_def)
  next
    case False
    with Cons.prems have "seed \<in> set seeds" by simp
    then have "bitArray (add_loop g str seeds) (BloomFilter_hash g str seed) = Some 1"
      by (rule Cons.IH)
    then show ?thesis by (simp add: hg) (simp add: Let_def g_def)
  qed
qed

lemma BloomFilter_add_fields [simp]:
  "size_bf (BloomFilter_add this str) = size_bf this"
  "hashFunctions (BloomFilter_add this str) = hashFunctions this"
  by (simp_all add: BloomFilter_add_def)

lemma BloomFilter_add_keeps:
  "bitArray this key = Some 1 \<Longrightarrow> bitArray (BloomFilter_add this y) key = Some 1"
  by (simp add: BloomFilter_add_def add_loop_keeps)

lemma fold_add_fields [simp]:
  "size_bf (fold (\<lambda>y f. BloomFilter_add f y) ys this) = size_bf this"
  "hashFunctions (fold (\<lambda>y f. BloomFilter_add f y) ys this) = hashFunctions this"
  by (induction ys arbitrary: this) simp_all

lemma fold_add_keeps:
  "bitArray this key = Some 1 \<Longrightarrow>
   bitArray (fold (\<lambda>y f. BloomFilter_add f y) ys this) key = Some 1"
  by (induction ys arbitrary: this) (simp_all add: BloomFilter_add_keeps)

lemma check_loop_all:
  "(\<And>seed. seed \<in> set seeds \<Longrightarrow> bitArray this (BloomFilter_hash this str seed) = Some 1) \<Longrightarrow>
   check_loop this str seeds"
  by (induction seeds) (simp_all add: Let_def)

lemma added_is_found:
  assumes "x \<in> set xs"
  shows "BloomFilter_check (fold (\<lambda>y f. BloomFilter_add f y) xs this) x"
  using assms
proof (induction xs arbitrary: this)
  case Nil
  then show ?case by simp
next
  case (Cons y ys)
  show ?case
  proof (cases "x \<in> set ys")
    case True
    then show ?thesis by (simp add: Cons.IH)
  next
    case False
    with Cons.prems have xy: "y = x" by simp
    define g where "g = BloomFilter_add this x"
    define f where "f = fold (\<lambda>y f. BloomFilter_add f y) ys g"
    have "bitArray f (BloomFilter_hash f x seed) = Some 1" if "seed \<in> set (hashFunctions f)" for seed
    proof -
      from that have "seed \<in> set (hashFunctions this)" by (simp add: f_def g_def)
      then have "bitArray g (BloomFilter_hash this x seed) = Some 1"
        unfolding g_def BloomFilter_add_def by (rule add_loop_sets)
      then have "bitArray f (BloomFilter_hash this x seed) = Some 1"
        unfolding f_def by (rule fold_add_keeps)
      moreover have "BloomFilter_hash f x seed = BloomFilter_hash this x seed"
        by (rule BloomFilter_hash_cong) (simp add: f_def g_def)
      ultimately show ?thesis by simp
    qed
    then have "check_loop f x (hashFunctions f)" by (rule check_loop_all)
    then show ?thesis by (simp add: BloomFilter_check_def f_def g_def xy)
  qed
qed

text \<open>
  Claim C9. For a filter built by the constructor with a size of at least 1, and any
  sequence of \<open>add\<close> calls that has \<open>x\<close> among its items, \<open>check x\<close> is \<open>true\<close> afterwards;
  and an entry that is 1 stays 1 under every \<open>add\<close>.
\<close>

theorem bloom_no_false_negative:
  assumes "new_BloomFilter size_arg hashFunctions_arg = Inr bf" "1 \<le> size_bf bf" "x \<in> set xs"
  shows "BloomFilter_check (fold (\<lambda>y f. BloomFilter_add f y) xs bf) x
       \<and> (\<forall>this key y. bitArray this key = Some 1 \<longrightarrow> bitArray (BloomFilter_add this y) key = Some 1)"
  using assms(3) by (simp add: added_is_found BloomFilter_add_keeps)

theorem bloom_no_false_negative_witness:
  "new_BloomFilter (Some 100) (Some [1, 7]) = Inr test_filter \<and> 1 \<le> size_bf test_filter
   \<and> ''apple'' \<in> set [''apple'', ''banana'']
   \<and> BloomFilter_check (fold (\<lambda>y f. BloomFilter_add f y) [''apple'', ''banana''] test_filter) ''apple''"
proof -
  have n: "new_BloomFilter (Some 100) (Some [1, 7]) = Inr test_filter"
    by (simp add: new_BloomFilter_def test_filter_def default_def)
  have s: "1 \<le> size_bf test_filter" by (simp add: test_filter_def)
  show ?thesis
    using bloom_no_false_negative [OF n s, of "''apple''" "[''apple'', ''banana'']"] n s by simp
qed

text \<open>
  The test of the repository: after \<open>apple\<close> and \<open>banana\<close> the filter with the seeds 1
  and 7 finds \<open>banana\<close> and does not find \<open>grape\<close>.
\<close>

lemma bloom_test_example:
  "\<not> BloomFilter_check (fold (\<lambda>y f. BloomFilter_add f y) [''apple'', ''banana''] test_filter) ''grape''
   \<and> BloomFilter_check (fold (\<lambda>y f. BloomFilter_add f y) [''apple'', ''banana''] test_filter) ''banana''"
  by (simp add: BloomFilter_check_def BloomFilter_add_def BloomFilter_hash_def test_filter_def
        ToInt32_def Let_def)

lemma add_loop_Nil_id: "hashFunctions this = [] \<Longrightarrow> BloomFilter_add this str = this"
  by (simp add: BloomFilter_add_def)

text \<open>
  Claim C10. A filter built without a \<open>hashFunctions\<close> argument has no seeds: \<open>check\<close>
  answers \<open>true\<close> for every string, on the new filter and after any sequence of \<open>add\<close>
  calls, and \<open>add\<close> leaves the filter, its bit array included, as it was.
\<close>

theorem bloom_without_seeds:
  assumes "new_BloomFilter size_arg None = Inr bf"
  shows "BloomFilter_check bf x
       \<and> BloomFilter_add bf y = bf
       \<and> bitArray (BloomFilter_add bf y) = bitArray bf
       \<and> BloomFilter_check (fold (\<lambda>y f. BloomFilter_add f y) ys bf) x"
proof -
  from assms have hf: "hashFunctions bf = []"
    by (auto simp: new_BloomFilter_def default_def Let_def split: if_splits)
  then have "hashFunctions (fold (\<lambda>y f. BloomFilter_add f y) ys bf) = []" by simp
  with hf show ?thesis by (simp add: BloomFilter_check_def add_loop_Nil_id)
qed

theorem bloom_without_seeds_witness:
  "new_BloomFilter None None = Inr fresh_filter
   \<and> BloomFilter_check fresh_filter ''grape''
   \<and> BloomFilter_add fresh_filter ''apple'' = fresh_filter"
proof -
  have n: "new_BloomFilter None None = Inr fresh_filter"
    by (simp add: new_BloomFilter_def fresh_filter_def default_def)
  show ?thesis
    using bloom_without_seeds [OF n, of "''grape''" "''apple''" "[]"] n by simp
qed

section \<open>The pattern parser\<close>

text \<open>
  What a term leaves of the pattern is no longer than what followed the term's first
  character, so \<open>parse_terms\<close> goes on with exactly that rest.
\<close>

lemma digits_rest: "digits s acc = (r, rest) \<Longrightarrow> length rest \<le> length s"
proof (induction s arbitrary: acc)
  case Nil
  then show ?case by simp
next
  case (Cons c cs)
  show ?case
  proof (cases "in_ranges digit (of_char c)")
    case True
    with Cons.prems have "digits cs (Some (10 * default 0 acc + (of_char c - 48))) = (r, rest)"
      by simp
    then have "length rest \<le> length cs" by (rule Cons.IH)
    then show ?thesis by simp
  next
    case False
    with Cons.prems show ?thesis by auto
  qed
qed

lemma braces_rest:
  assumes "braces s = Ok (b, rest)"
  shows "length rest \<le> length s"
proof -
  obtain n r1 where d1: "digits s None = (n, r1)" by (cases "digits s None")
  then have l1: "length r1 \<le> length s" by (rule digits_rest)
  obtain m r2 where d2: "digits (tl r1) None = (m, r2)" by (cases "digits (tl r1) None")
  then have "length r2 \<le> length (tl r1)" by (rule digits_rest)
  then have l2: "length r2 \<le> length s" using l1 by simp
  show ?thesis
    using assms d1 d2 l1 l2
    by (auto simp: braces_def split: option.splits list.splits if_splits)
qed

lemma quantifier_rest:
  assumes "quantifier s = Ok (b, rest)"
  shows "length rest \<le> length s"
proof (cases s)
  case Nil
  with assms show ?thesis by (auto simp: quantifier_def split: if_splits)
next
  case (Cons c cs)
  have "length r \<le> length cs" if "braces cs = Ok (q, r)" for q r
    using that by (rule braces_rest)
  with assms Cons show ?thesis
    by (fastforce simp: quantifier_def Let_def split: if_splits parse.splits)
qed

lemma class_atoms_rest: "class_atoms s = Ok (as, rest) \<Longrightarrow> length rest \<le> length s"
proof (induction s arbitrary: as rest rule: class_atoms.induct)
  case 1
  then show ?case by simp
next
  case (2 c)
  then show ?case by (simp split: if_splits)
next
  case (3 c e cs)
  show ?case
  proof (cases "c = CHR '']''")
    case True
    with "3.prems" show ?thesis by simp
  next
    case notclose: False
    show ?thesis
    proof (cases "c = CHR 0x5C")
      case True
      with notclose "3.prems" obtain rs as' where
        e: "escape e = Some rs" and r: "class_atoms cs = Ok (as', rest)"
        by (auto split: option.splits parse.splits)
      from "3.IH"(1) [OF notclose True e r] show ?thesis by simp
    next
      case False
      with notclose "3.prems" obtain as' where r: "class_atoms (e # cs) = Ok (as', rest)"
        by (auto split: parse.splits)
      from "3.IH"(2) [OF notclose False r] show ?thesis by simp
    qed
  qed
qed

lemma parse_class_rest:
  assumes "parse_class s = Ok (a, rest)"
  shows "length rest \<le> length s"
proof -
  define body where "body = (if (case s of c # _ \<Rightarrow> c = CHR ''^'' | [] \<Rightarrow> False) then tl s else s)"
  from assms obtain as where "class_atoms body = Ok (as, rest)"
    by (auto simp: parse_class_def Let_def body_def split: parse.splits)
  then have "length rest \<le> length body" by (rule class_atoms_rest)
  moreover have "length body \<le> length s" by (simp add: body_def)
  ultimately show ?thesis by simp
qed

lemma parse_atom_rest:
  assumes "parse_atom c cs = Ok (a, rest)"
  shows "length rest \<le> length cs"
proof (cases "c = CHR ''[''")
  case True
  with assms have "parse_class cs = Ok (a, rest)" by (simp add: parse_atom_def)
  then show ?thesis by (rule parse_class_rest)
next
  case False
  with assms show ?thesis
    by (auto simp: parse_atom_def split: if_splits list.splits option.splits parse.splits)
qed

lemma parse_term_rest:
  assumes "parse_term c cs = Ok (t, rest)"
  shows "length rest \<le> length cs"
proof -
  from assms obtain a r1 b where a: "parse_atom c cs = Ok (a, r1)" and q: "quantifier r1 = Ok (b, rest)"
    by (auto simp: parse_term_def split: parse.splits)
  from a have "length r1 \<le> length cs" by (rule parse_atom_rest)
  moreover from q have "length rest \<le> length r1" by (rule quantifier_rest)
  ultimately show ?thesis by simp
qed

lemma parse_terms_Cons:
  "parse_terms (c # cs) =
     (case parse_term c cs of
        Ok (t, rest) \<Rightarrow>
          (case parse_terms rest of
             Ok ts \<Rightarrow> Ok (t # ts)
           | Invalid \<Rightarrow> Invalid
           | Unmodelled \<Rightarrow> Unmodelled)
      | Invalid \<Rightarrow> Invalid
      | Unmodelled \<Rightarrow> Unmodelled)"
proof (cases "parse_term c cs")
  case (Ok x)
  obtain t rest where x: "x = (t, rest)" by (cases x)
  with Ok have "length rest \<le> length cs" by (simp add: parse_term_rest)
  with Ok x show ?thesis by simp
qed simp_all

section \<open>Properties of \<open>redactFile\<close>\<close>

text \<open>
  The two patterns of the test compile, each has one match in the text it is applied
  to, and \<open>mask\<close> turns the two matches into \<open>1234********3456\<close> (hidden span 11,
  \<open>Math.round (11 * 0.7) = 8\<close>) and \<open>te************om\<close> (hidden span 12 at ratio 1).
\<close>

lemma RegExp_card: "RegExp card_pattern = Ok card_regex"
  by code_simp
lemma RegExp_email: "RegExp email_pattern = Ok email_regex"
  by code_simp

lemma mask_card: "mask_js (JString ''1234-5678-9012-3456'') card_rule = Inr ''1234********3456''"
  by (simp add: mask_eval card_rule_def)
lemma mask_email: "mask_js (JString ''test@example.com'') email_rule = Inr ''te************om''"
  by (simp add: mask_eval email_rule_def)

lemma replace_card:
  "replace card_regex fn test_content =
     (case fn ''1234-5678-9012-3456'' of Inl e \<Rightarrow> Inl e
      | Inr r \<Rightarrow> Inr (''My credit card is '' @ r @ '' and my email is test@example.com''))"
  by (cases "fn ''1234-5678-9012-3456''") (simp_all add: test_content_def card_regex_def digit_def in_ranges_def atom_matches_def)

lemma replace_email:
  "replace email_regex fn card_redacted =
     (case fn ''test@example.com'' of Inl e \<Rightarrow> Inl e
      | Inr r \<Rightarrow> Inr (''My credit card is 1234********3456 and my email is '' @ r))"
  by (cases "fn ''test@example.com''")
    (simp_all add: card_redacted_def email_regex_def in_ranges_def atom_matches_def)

lemma replace_email_unchanged:
  "replace email_regex fn test_content =
     (case fn ''test@example.com'' of Inl e \<Rightarrow> Inl e
      | Inr r \<Rightarrow> Inr (''My credit card is 1234-5678-9012-3456 and my email is '' @ r))"
  by (cases "fn ''test@example.com''")
    (simp_all add: test_content_def email_regex_def in_ranges_def atom_matches_def)

lemma apply_card_rule: "apply_rule mask_js test_content (card_pattern, card_rule) = Some card_redacted"
  by (simp add: apply_rule_def RegExp_card replace_card mask_card card_redacted_def)

lemma apply_email_rule:
  "apply_rule mask_js card_redacted (email_pattern, email_rule) =
     Some ''My credit card is 1234********3456 and my email is te************om''"
  by (simp add: apply_rule_def RegExp_email replace_email mask_email)

text \<open>
  With \<open>mask\<close> bound to the function of \<open>src/mask.js\<close>, the two rules would turn the text
  of the test into \<open>My credit card is 1234********3456 and my email is te************om\<close>.
\<close>

lemma redact_test_file_bound:
  "redact mask_js test_content test_rules =
     Some ''My credit card is 1234********3456 and my email is te************om''"
  by (simp add: test_rules_def apply_card_rule apply_email_rule)

text \<open>
  Claim C2. The claim asks for
  \<open>My credit card is 1234-****-****-3456 and my email is ****************\<close>, as the test
  of the command line does. In \<open>cli.js\<close> as it stands \<open>mask\<close> is unbound: each of the two
  rules finds its match, the call of \<open>mask\<close> raises a ReferenceError, the \<open>catch\<close> reports
  it, and the text goes to the output file as it was read.
\<close>

theorem redact_test_file_unbound:
  "redact unbound test_content test_rules = Some test_content
   \<and> redactFile unbound [''test.txt'' \<mapsto> test_content] ''test.txt'' test_rules ''test-redacted.txt''
       = Some [''test.txt'' \<mapsto> test_content, ''test-redacted.txt'' \<mapsto> test_content]
   \<and> test_content \<noteq> ''My credit card is 1234-****-****-3456 and my email is ****************''"
proof -
  have r: "redact unbound test_content test_rules = Some test_content"
    by (simp add: test_rules_def apply_rule_def RegExp_card RegExp_email replace_card
          replace_email_unchanged unbound_def)
  have "test_content \<noteq> ''My credit card is 1234-****-****-3456 and my email is ****************''"
    by (simp add: test_content_def)
  with r show ?thesis by (simp add: redactFile_def)
qed

lemma redact_append:
  "redact mask_fn input (before @ after) =
     (case redact mask_fn input before of None \<Rightarrow> None | Some data \<Rightarrow> redact mask_fn data after)"
  by (induction before arbitrary: input) (simp_all split: option.splits)

text \<open>
  A rule whose pattern makes the \<open>RegExp\<close> constructor throw leaves the text as it is,
  and the loop goes on: the result is that of the rule set without this rule, whatever
  \<open>mask\<close> is bound to.
\<close>

lemma redact_skips_invalid_rule:
  assumes "RegExp key = Invalid"
  shows "apply_rule mask_fn input (key, rule) = Some input
       \<and> redact mask_fn input (before @ (key, rule) # after) = redact mask_fn input (before @ after)"
  using assms by (simp add: apply_rule_def redact_append split: option.splits)

lemma RegExp_invalid_pattern: "RegExp invalid_pattern = Invalid"
  by code_simp

text \<open>
  Claim C6. The rule set of an invalid pattern, an unterminated class, and the card
  pattern: the invalid rule is passed over and the card rule is tried. With \<open>mask\<close> bound
  to the function of \<open>src/mask.js\<close> the card number would be masked; in \<open>cli.js\<close> as it
  stands \<open>mask\<close> is unbound, the call raises a ReferenceError inside the rule's \<open>try\<close>, and
  the masking of the valid pattern does not reach the output.
\<close>

theorem redact_invalid_and_valid_unbound:
  "RegExp invalid_pattern = Invalid
   \<and> RegExp card_pattern = Ok card_regex
   \<and> redact unbound test_content [(invalid_pattern, no_options), (card_pattern, card_rule)]
       = Some test_content
   \<and> redact mask_js test_content [(invalid_pattern, no_options), (card_pattern, card_rule)]
       = Some ''My credit card is 1234********3456 and my email is test@example.com''"
  by (simp add: RegExp_invalid_pattern RegExp_card apply_rule_def replace_card mask_card
        unbound_def)

end
